theory Spec2Isabelle
  imports Main "HOL-Library.Word"
begin

unbundle bit_operations_syntax

section \<open>Data model\<close>

text \<open>
  Shared conventions. A Go \<^verbatim>\<open>[]byte\<close> is a list of 8-bit words, a Go \<^verbatim>\<open>string\<close> is a
  \<^typ>\<open>string\<close>, \<^verbatim>\<open>uint32\<close> and \<^verbatim>\<open>int64\<close> are 32- and 64-bit words (addition wraps, as in
  Go), \<^verbatim>\<open>time.Time\<close> is a number of nanoseconds, a Go map is a partial function and a nil
  pointer or nil interface is \<^term>\<open>None\<close>.
\<close>

type_synonym byte = "8 word"
type_synonym uint32 = "32 word"
type_synonym int64 = "64 word"
type_synonym time = int

subsection \<open>Target validation (package server)\<close>

text \<open>
  The functions of Go's \<^verbatim>\<open>net\<close> and \<^verbatim>\<open>regexp\<close> packages that the authorizer calls are
  parameters of the model, collected in one record. \<open>'rx\<close> stands for a compiled
  \<^verbatim>\<open>*regexp.Regexp\<close>, \<open>'net\<close> for a \<^verbatim>\<open>*net.IPNet\<close>, \<open>'ip\<close> for a \<^verbatim>\<open>net.IP\<close>; a failing parse
  or a nil result is \<^term>\<open>None\<close>. \<open>SplitHostPort\<close> gives the host only, the one result the
  code keeps (the empty string when the call fails).
\<close>

record ('rx, 'net, 'ip) golib =
  ParseCIDR :: "string \<Rightarrow> 'net option"
  Compile :: "string \<Rightarrow> 'rx option"
  MatchString :: "'rx \<Rightarrow> string \<Rightarrow> bool"
  SplitHostPort :: "string \<Rightarrow> string"
  ParseIP :: "string \<Rightarrow> 'ip option"
  Contains :: "'net \<Rightarrow> 'ip \<Rightarrow> bool"

record ('rx, 'net) TargetRule =
  Raw :: string
  Regex :: "'rx option"
  CIDRNet :: "'net option"
  IsDomain :: bool

datatype compile_error = BadCIDR string | BadRegexp string

text \<open>\<^verbatim>\<open>strings.Contains\<close> for a one-byte substring and \<^verbatim>\<open>strings.ContainsAny\<close>.\<close>

definition ContainsByte :: "string \<Rightarrow> char \<Rightarrow> bool" where
  "ContainsByte s c = list_ex (\<lambda>x. x = c) s"

definition ContainsAny :: "string \<Rightarrow> string \<Rightarrow> bool" where
  "ContainsAny s chars = list_ex (\<lambda>x. ContainsByte chars x) s"

text \<open>
  \<^verbatim>\<open>regexp.QuoteMeta\<close>: a backslash before every byte of \<^verbatim>\<open>\.+*?()|[]{}^$\<close>.
\<close>

definition backslash :: char where
  "backslash = CHR 0x5C"

definition special :: "char \<Rightarrow> bool" where
  "special c = (c = backslash \<or> ContainsByte ''.+*?()|[]{}^$'' c)"

fun QuoteMeta :: "string \<Rightarrow> string" where
  "QuoteMeta [] = []"
| "QuoteMeta (c # s) = (if special c then backslash # c # QuoteMeta s else c # QuoteMeta s)"

text \<open>
  \<^verbatim>\<open>strings.ReplaceAll(s, old, new)\<close> for a non-empty \<open>old\<close>, as at its only call: the
  occurrences are found from the left and do not overlap.
\<close>

function ReplaceAll :: "string \<Rightarrow> string \<Rightarrow> string \<Rightarrow> string" where
  "ReplaceAll s old new =
     (if s = [] \<or> old = [] then s
      else if take (length old) s = old then new @ ReplaceAll (drop (length old) s) old new
      else hd s # ReplaceAll (tl s) old new)"
  by pat_completeness auto
termination
  by (relation "measure (\<lambda>(s, old, new). length s)") (auto simp: take_eq_Nil)

declare ReplaceAll.simps [simp del]

text \<open>The pattern that the wildcard branch of \<^verbatim>\<open>compileRules\<close> hands to \<^verbatim>\<open>regexp.Compile\<close>.\<close>

definition wildcardPattern :: "string \<Rightarrow> string" where
  "wildcardPattern t = ReplaceAll (''^'' @ QuoteMeta t @ ''$'') [backslash, CHR ''*''] ''.*''"

text \<open>
  The pattern that the specification describes for a wildcard entry: anchored at both ends,
  \<^verbatim>\<open>*\<close> as \<^verbatim>\<open>.*\<close>, \<^verbatim>\<open>?\<close> as \<^verbatim>\<open>.\<close>, every other byte literal (escaped where the
  pattern syntax needs it). It is compared with \<open>wildcardPattern\<close> below.
\<close>

definition spec_byte :: "char \<Rightarrow> string" where
  "spec_byte c =
     (if c = CHR ''*'' then ''.*'' else if c = CHR ''?'' then ''.''
      else if special c then [backslash, c] else [c])"

definition spec_wildcardPattern :: "string \<Rightarrow> string" where
  "spec_wildcardPattern t = ''^'' @ concat (map spec_byte t) @ ''$''"

definition compileRule :: "('rx, 'net, 'ip) golib \<Rightarrow> string \<Rightarrow> compile_error + ('rx, 'net) TargetRule" where
  "compileRule L t =
     (let r = \<lparr>Raw = t, Regex = None, CIDRNet = None, IsDomain = False\<rparr> in
      if ContainsByte t CHR ''/'' then
        (case ParseCIDR L t of
           None \<Rightarrow> Inl (BadCIDR t)
         | Some cidrNet \<Rightarrow> Inr (r\<lparr>CIDRNet := Some cidrNet\<rparr>))
      else if ContainsAny t ''*?'' then
        (case Compile L (wildcardPattern t) of
           None \<Rightarrow> Inl (BadRegexp (wildcardPattern t))
         | Some reg \<Rightarrow> Inr (r\<lparr>Regex := Some reg, IsDomain := True\<rparr>))
      else if ContainsByte t CHR '':'' then Inr r
      else Inr (r\<lparr>IsDomain := True\<rparr>))"

text \<open>\<^verbatim>\<open>compileRules\<close>: the entries in order; the first entry that fails ends the loop.\<close>

fun compileRules :: "('rx, 'net, 'ip) golib \<Rightarrow> string list \<Rightarrow> compile_error + ('rx, 'net) TargetRule list" where
  "compileRules L [] = Inr []"
| "compileRules L (t # ts) =
     (case compileRule L t of
        Inl e \<Rightarrow> Inl e
      | Inr r \<Rightarrow> (case compileRules L ts of Inl e \<Rightarrow> Inl e | Inr rs \<Rightarrow> Inr (r # rs)))"

text \<open>One turn of the loop of \<^verbatim>\<open>isAllowedEnhanced\<close>: does rule \<open>r\<close> return \<^verbatim>\<open>true\<close>?\<close>

definition rule_hit :: "('rx, 'net, 'ip) golib \<Rightarrow> string \<Rightarrow> string \<Rightarrow> ('rx, 'net) TargetRule \<Rightarrow> bool" where
  "rule_hit L host target r =
     (case CIDRNet r of
        Some n \<Rightarrow> (case ParseIP L host of None \<Rightarrow> False | Some ip \<Rightarrow> Contains L n ip)
      | None \<Rightarrow>
          (case Regex r of
             Some re \<Rightarrow> MatchString L re target
           | None \<Rightarrow> if IsDomain r then host = Raw r else target = Raw r))"

fun rules_loop :: "('rx, 'net, 'ip) golib \<Rightarrow> string \<Rightarrow> string \<Rightarrow> ('rx, 'net) TargetRule list \<Rightarrow> bool" where
  "rules_loop L host target [] = False"
| "rules_loop L host target (r # rs) =
     (if rule_hit L host target r then True else rules_loop L host target rs)"

definition isAllowedEnhanced :: "('rx, 'net, 'ip) golib \<Rightarrow> ('rx, 'net) TargetRule list \<Rightarrow> string \<Rightarrow> bool" where
  "isAllowedEnhanced L rules target =
     (if length rules = 0 then True
      else rules_loop L (SplitHostPort L target) target rules)"

subsubsection \<open>A library for the examples\<close>

text \<open>
  Closed examples need the library's functions as values. \<open>exlib\<close> has
  \<^verbatim>\<open>net.SplitHostPort\<close> and the patterns that \<^verbatim>\<open>compileRules\<close> can build: anchored
  at both ends, made of literal bytes, escaped bytes and \<^verbatim>\<open>.*\<close> (any bytes but a newline).
  It has no CIDR parser, and the examples have no CIDR entry.
\<close>

fun IndexByte :: "string \<Rightarrow> char \<Rightarrow> nat option" where
  "IndexByte [] c = None"
| "IndexByte (x # xs) c = (if x = c then Some 0 else map_option Suc (IndexByte xs c))"

definition LastIndexByte :: "string \<Rightarrow> char \<Rightarrow> nat option" where
  "LastIndexByte s c = map_option (\<lambda>k. length s - 1 - k) (IndexByte (rev s) c)"

datatype addr_error = MissingPort | TooManyColons | MissingBracket | UnexpectedOpen | UnexpectedClose

definition bracket_checks :: "string \<Rightarrow> string \<Rightarrow> nat \<Rightarrow> nat \<Rightarrow> nat \<Rightarrow> string \<times> string \<times> addr_error option" where
  "bracket_checks hostport host j k i =
     (if IndexByte (drop j hostport) CHR ''['' \<noteq> None then ([], [], Some UnexpectedOpen)
      else if IndexByte (drop k hostport) CHR '']'' \<noteq> None then ([], [], Some UnexpectedClose)
      else (host, drop (i + 1) hostport, None))"

definition net_SplitHostPort :: "string \<Rightarrow> string \<times> string \<times> addr_error option" where
  "net_SplitHostPort hostport =
     (case LastIndexByte hostport CHR '':'' of
        None \<Rightarrow> ([], [], Some MissingPort)
      | Some i \<Rightarrow>
          if hd hostport = CHR ''['' then
            (case IndexByte hostport CHR '']'' of
               None \<Rightarrow> ([], [], Some MissingBracket)
             | Some e \<Rightarrow>
                 if e + 1 = length hostport then ([], [], Some MissingPort)
                 else if e + 1 = i then bracket_checks hostport (take (e - 1) (drop 1 hostport)) 1 (e + 1) i
                 else if hostport ! (e + 1) = CHR '':'' then ([], [], Some TooManyColons)
                 else ([], [], Some MissingPort))
          else if IndexByte (take i hostport) CHR '':'' \<noteq> None then ([], [], Some TooManyColons)
          else bracket_checks hostport (take i hostport) 0 0 i)"

datatype tok = Lit char | AnyStar

fun rx_tokens :: "string \<Rightarrow> tok list option" where
  "rx_tokens [] = None"
| "rx_tokens [c] = (if c = CHR ''$'' then Some [] else None)"
| "rx_tokens (c # d # p) =
     (if c = backslash then (if special d then map_option ((#) (Lit d)) (rx_tokens p) else None)
      else if c = CHR ''.'' then (if d = CHR ''*'' then map_option ((#) AnyStar) (rx_tokens p) else None)
      else if special c then None
      else map_option ((#) (Lit c)) (rx_tokens (d # p)))"

definition rx_compile :: "string \<Rightarrow> tok list option" where
  "rx_compile p = (case p of [] \<Rightarrow> None | c # body \<Rightarrow> if c = CHR ''^'' then rx_tokens body else None)"

fun rx_match :: "tok list \<Rightarrow> string \<Rightarrow> bool" where
  "rx_match [] s = (s = [])"
| "rx_match (Lit c # ts) [] = False"
| "rx_match (Lit c # ts) (x # xs) = (x = c \<and> rx_match ts xs)"
| "rx_match (AnyStar # ts) [] = rx_match ts []"
| "rx_match (AnyStar # ts) (x # xs) =
     (rx_match ts (x # xs) \<or> (x \<noteq> CHR 0x0A \<and> rx_match (AnyStar # ts) xs))"

definition exlib :: "(tok list, unit, unit) golib" where
  "exlib = \<lparr>ParseCIDR = (\<lambda>_. None), Compile = rx_compile, MatchString = rx_match,
            SplitHostPort = (\<lambda>t. fst (net_SplitHostPort t)),
            ParseIP = (\<lambda>_. None), Contains = (\<lambda>_ _. False)\<rparr>"

subsection \<open>WebSocket frames (package bridge)\<close>

text \<open>
  \<^verbatim>\<open>binary.BigEndian.PutUint32\<close> and \<^verbatim>\<open>binary.BigEndian.Uint32\<close> on a 4-byte slice.
\<close>

definition PutUint32 :: "uint32 \<Rightarrow> byte list" where
  "PutUint32 v = [ucast (drop_bit 24 v), ucast (drop_bit 16 v), ucast (drop_bit 8 v), ucast v]"

definition Uint32 :: "byte \<Rightarrow> byte \<Rightarrow> byte \<Rightarrow> byte \<Rightarrow> uint32" where
  "Uint32 b0 b1 b2 b3 =
     ucast b3 OR push_bit 8 (ucast b2) OR push_bit 16 (ucast b1) OR push_bit 24 (ucast b0)"

text \<open>
  \<^verbatim>\<open>writeWSFrame\<close> builds \<^verbatim>\<open>buf\<close> and hands it to \<^verbatim>\<open>ws.WriteMessage\<close> as one binary message;
  \<open>WSFrame\<close> is that buffer. \<^verbatim>\<open>uint32(len(data))\<close> truncates to 32 bits.
\<close>

definition WSFrame :: "uint32 \<Rightarrow> byte list \<Rightarrow> byte list" where
  "WSFrame streamID data = PutUint32 streamID @ PutUint32 (of_nat (length data)) @ data"

datatype io_error = EOF | ErrUnexpectedEOF

text \<open>
  \<^verbatim>\<open>io.ReadFull(r, buf)\<close> on a reader holding the bytes \<open>r\<close>, for a zeroed buffer of \<open>n\<close> bytes:
  the buffer afterwards, what is left in the reader, and the error (\<^verbatim>\<open>EOF\<close> when nothing
  could be read, \<^verbatim>\<open>ErrUnexpectedEOF\<close> when the reader ended early).
\<close>

definition ReadFull :: "byte list \<Rightarrow> nat \<Rightarrow> byte list \<times> byte list \<times> io_error option" where
  "ReadFull r n =
     (if n \<le> length r then (take n r, drop n r, None)
      else (r @ replicate (n - length r) 0, [], Some (if r = [] then EOF else ErrUnexpectedEOF)))"

text \<open>
  \<^verbatim>\<open>readWSFrame\<close> returns its three named results; on a header error they are still
  the zero values.
\<close>

definition readWSFrame :: "byte list \<Rightarrow> uint32 \<times> byte list \<times> io_error option" where
  "readWSFrame r =
     (case ReadFull r 8 of
        (header, r', Some e) \<Rightarrow> (0, [], Some e)
      | (header, r', None) \<Rightarrow>
          let streamID = Uint32 (header ! 0) (header ! 1) (header ! 2) (header ! 3);
              len = Uint32 (header ! 4) (header ! 5) (header ! 6) (header ! 7)
          in (case ReadFull r' (unat len) of (payload, _, err) \<Rightarrow> (streamID, payload, err)))"

subsection \<open>TCP pool (package bridge, pool)\<close>

text \<open>
  A \<^verbatim>\<open>net.Conn\<close> is a handle. The pool holds the three Go maps and \<^verbatim>\<open>maxSize\<close>; every
  entry of \<^verbatim>\<open>counters\<close> points to a cell of its own (\<^verbatim>\<open>AddTargets\<close> allocates it), so the
  map carries the cell's value.
\<close>

type_synonym conn = nat

datatype pool_error = NoBackends string | NilCounter | DialFailed string

datatype put_effect = Pooled | Closed conn

record TCPPool =
  conns :: "string \<rightharpoonup> conn list"
  backends :: "string \<rightharpoonup> string list"
  counters :: "string \<rightharpoonup> uint32"
  maxSize :: int

definition NewTCPPool :: "int \<Rightarrow> TCPPool" where
  "NewTCPPool mx = \<lparr>conns = Map.empty, backends = Map.empty, counters = Map.empty, maxSize = mx\<rparr>"

definition AddTargets :: "string \<Rightarrow> string list \<Rightarrow> TCPPool \<Rightarrow> TCPPool" where
  "AddTargets logical targets p =
     p\<lparr>backends := (backends p)(logical \<mapsto> targets), counters := (counters p)(logical \<mapsto> 0)\<rparr>"

text \<open>\<^verbatim>\<open>p.conns[k]\<close>: a missing key reads as the nil slice.\<close>

definition idle :: "TCPPool \<Rightarrow> string \<Rightarrow> conn list" where
  "idle p k = (case conns p k of None \<Rightarrow> [] | Some cs \<Rightarrow> cs)"

text \<open>
  \<^verbatim>\<open>Get\<close>. \<open>dial b\<close> is \<^verbatim>\<open>net.DialTimeout("tcp", b, 5s)\<close>, \<^term>\<open>None\<close> when it fails.
  \<^verbatim>\<open>atomic.AddUint32\<close> stores and returns the new value, wrapping at \<open>2^32\<close>; on a nil cell it
  panics (\<^term>\<open>NilCounter\<close>). \<^verbatim>\<open>int(idx)\<close> is the 64-bit \<^verbatim>\<open>int\<close>, so it is \<^term>\<open>unat idx\<close>.
\<close>

definition Get :: "(string \<Rightarrow> conn option) \<Rightarrow> string \<Rightarrow> TCPPool \<Rightarrow> (pool_error + conn) \<times> TCPPool" where
  "Get dial logical p =
     (case backends p logical of
        None \<Rightarrow> (Inl (NoBackends logical), p)
      | Some bs \<Rightarrow>
          if length bs = 0 then (Inl (NoBackends logical), p)
          else
            (case counters p logical of
               None \<Rightarrow> (Inl NilCounter, p)
             | Some c \<Rightarrow>
                 let idx = c + 1;
                     p1 = p\<lparr>counters := (counters p)(logical \<mapsto> idx)\<rparr>;
                     backend = bs ! (unat idx mod length bs);
                     cs = idle p1 backend
                 in if length cs > 0
                    then (Inr (cs ! (length cs - 1)),
                          p1\<lparr>conns := (conns p1)(backend \<mapsto> take (length cs - 1) cs)\<rparr>)
                    else (case dial backend of
                            None \<Rightarrow> (Inl (DialFailed backend), p1)
                          | Some k \<Rightarrow> (Inr k, p1))))"

text \<open>\<^verbatim>\<open>Put\<close>: the result says whether the connection was kept or closed.\<close>

definition Put :: "string \<Rightarrow> conn \<Rightarrow> TCPPool \<Rightarrow> TCPPool \<times> put_effect" where
  "Put target k p =
     (if int (length (idle p target)) \<ge> maxSize p then (p, Closed k)
      else (p\<lparr>conns := (conns p)(target \<mapsto> idle p target @ [k])\<rparr>, Pooled))"

text \<open>A pool and a dialer for the examples: one logical target with two backends.\<close>

definition pool2 :: TCPPool where
  "pool2 = AddTargets ''svc'' [''a:1'', ''b:1''] (NewTCPPool 2)"

definition dial2 :: "string \<Rightarrow> conn option" where
  "dial2 b = (if b = ''a:1'' then Some 1 else if b = ''b:1'' then Some 2 else None)"

subsection \<open>Metrics registry (package server, metrics)\<close>

record StreamMetrics =
  BytesSent :: int64
  BytesReceived :: int64
  Errors :: int64
  LastActive :: time

record MetricsManager =
  mstreams :: "string \<rightharpoonup> StreamMetrics"

definition NewMetricsManager :: MetricsManager where
  "NewMetricsManager = \<lparr>mstreams = Map.empty\<rparr>"

text \<open>\<^verbatim>\<open>RegisterStream\<close>: a new entry only when the id is absent; \<open>now\<close> is \<^verbatim>\<open>time.Now()\<close>.\<close>

definition RegisterStream :: "time \<Rightarrow> string \<Rightarrow> MetricsManager \<Rightarrow> MetricsManager" where
  "RegisterStream now ident m =
     (case mstreams m ident of
        None \<Rightarrow> m\<lparr>mstreams := (mstreams m)(ident \<mapsto>
                 \<lparr>BytesSent = 0, BytesReceived = 0, Errors = 0, LastActive = now\<rparr>)\<rparr>
      | Some _ \<Rightarrow> m)"

text \<open>\<^verbatim>\<open>AddBytes\<close>: the body runs only under \<^verbatim>\<open>if s, ok := m.streams[id]; ok\<close>.\<close>

definition AddBytes :: "time \<Rightarrow> string \<Rightarrow> int64 \<Rightarrow> int64 \<Rightarrow> MetricsManager \<Rightarrow> MetricsManager" where
  "AddBytes now ident sent recv m =
     (case mstreams m ident of
        Some s \<Rightarrow> m\<lparr>mstreams := (mstreams m)(ident \<mapsto>
                 s\<lparr>BytesSent := BytesSent s + sent,
                   BytesReceived := BytesReceived s + recv,
                   LastActive := now\<rparr>)\<rparr>
      | None \<Rightarrow> m)"

definition AddError :: "string \<Rightarrow> MetricsManager \<Rightarrow> MetricsManager" where
  "AddError ident m =
     (case mstreams m ident of
        Some s \<Rightarrow> m\<lparr>mstreams := (mstreams m)(ident \<mapsto> s\<lparr>Errors := Errors s + 1\<rparr>)\<rparr>
      | None \<Rightarrow> m)"

subsection \<open>Bridge (package bridge)\<close>

text \<open>
  The client endpoints are handles; a nil endpoint or connection is \<^term>\<open>None\<close>. From here
  on \<open>BytesSent\<close> and \<open>BytesReceived\<close> are the fields of the bridge.
\<close>

datatype BridgeType = WSBridge | QUICBridge

record Bridge =
  bridgeType :: BridgeType
  ws :: "nat option"
  quicStr :: "nat option"
  tcpConn :: "conn option"
  BytesSent :: int64
  BytesReceived :: int64
  target :: string

definition string_of_bytes :: "byte list \<Rightarrow> string" where
  "string_of_bytes bs = map (\<lambda>b. char_of (unat b)) bs"

definition bytes_of_string :: "string \<Rightarrow> byte list" where
  "bytes_of_string s = map (\<lambda>c. of_nat (of_char c)) s"

text \<open>
  What a copy loop does is a function of what its calls return. A \<open>turn\<close> is one pass
  through a loop that reads bytes: the bytes \<^verbatim>\<open>buf[:n]\<close> and the error of the \<^verbatim>\<open>Read\<close>, and what
  the \<^verbatim>\<open>Write\<close> of that pass returns if the pass writes. The loop's trace lists its calls.
  A loop that has used up the list is blocked in its next read (\<open>Waiting\<close>).
\<close>

datatype wr = WriteOk | WriteErr nat

datatype turn = Turn "byte list" bool wr

datatype event =
    QuicRead "byte list"
  | TcpRead "byte list"
  | WsRead "byte list"
  | Dial string
  | TcpWrite conn "byte list"
  | QuicWrite "byte list"
  | WsWrite "byte list"
  | CancelRead nat
  | CancelWrite nat
  | WsClose
  | TcpClose conn

datatype outcome = Returned | Waiting | Panicked

definition emit :: "event list \<Rightarrow> Bridge \<times> event list \<times> outcome \<Rightarrow> Bridge \<times> event list \<times> outcome" where
  "emit es r = (case r of (b, ev, out) \<Rightarrow> (b, es @ ev, out))"

definition BinaryMessage :: nat where
  "BinaryMessage = 2"

text \<open>
  \<^verbatim>\<open>startWS\<close>, TCP to WS. \<^verbatim>\<open>writeWSFrame(b.ws, 1, buf[:n])\<close> sends \<open>WSFrame 1 data\<close>.
\<close>

fun tcp_to_ws :: "Bridge \<Rightarrow> turn list \<Rightarrow> Bridge \<times> event list \<times> outcome" where
  "tcp_to_ws b [] = (case tcpConn b of None \<Rightarrow> (b, [], Panicked) | Some tcp \<Rightarrow> (b, [], Waiting))"
| "tcp_to_ws b (Turn data rerr ew # rest) =
     (case tcpConn b of
        None \<Rightarrow> (b, [], Panicked)
      | Some tcp \<Rightarrow>
          if length data > 0 then
            (let b1 = b\<lparr>BytesSent := BytesSent b + of_nat (length data)\<rparr> in
             if ew \<noteq> WriteOk then (b1, [TcpRead data, WsWrite (WSFrame 1 data)], Returned)
             else if rerr then (b1, [TcpRead data, WsWrite (WSFrame 1 data)], Returned)
             else emit [TcpRead data, WsWrite (WSFrame 1 data)] (tcp_to_ws b1 rest))
          else if rerr then (b, [TcpRead data], Returned)
          else emit [TcpRead data] (tcp_to_ws b rest))"

text \<open>
  \<^verbatim>\<open>startWS\<close>, WS to TCP. One pass takes the result of \<^verbatim>\<open>b.ws.NextReader()\<close>: an error, or a
  message type and the message's bytes; \<open>ew\<close> is what \<^verbatim>\<open>b.tcpConn.Write(payload)\<close> returns
  (all bytes written, or an error after \<open>k\<close> bytes).
\<close>

datatype ws_in = WsErr | WsMsg nat "byte list" wr

fun ws_to_tcp :: "Bridge \<Rightarrow> ws_in list \<Rightarrow> Bridge \<times> event list \<times> outcome" where
  "ws_to_tcp b [] = (b, [], Waiting)"
| "ws_to_tcp b (WsErr # rest) = (b, [], Returned)"
| "ws_to_tcp b (WsMsg mt msg ew # rest) =
     (if mt \<noteq> BinaryMessage then ws_to_tcp b rest
      else
        (case readWSFrame msg of
           (streamID, payload, Some e) \<Rightarrow> (b, [WsRead msg], Returned)
         | (streamID, payload, None) \<Rightarrow>
             if streamID \<noteq> 1 then emit [WsRead msg] (ws_to_tcp b rest)
             else
               (case tcpConn b of
                  None \<Rightarrow> (b, [WsRead msg], Panicked)
                | Some tcp \<Rightarrow>
                    (let n = (case ew of WriteOk \<Rightarrow> length payload | WriteErr k \<Rightarrow> k);
                         b1 = b\<lparr>BytesReceived := BytesReceived b + of_nat n\<rparr>
                     in emit [WsRead msg, TcpWrite tcp payload] (ws_to_tcp b1 rest)))))"

text \<open>
  \<^verbatim>\<open>startQUIC\<close>, QUIC to TCP. \<open>dial t\<close> is \<^verbatim>\<open>net.Dial("tcp", t)\<close>, \<^term>\<open>None\<close> when it fails.
\<close>

fun quic_to_tcp :: "(string \<Rightarrow> conn option) \<Rightarrow> Bridge \<Rightarrow> turn list \<Rightarrow> Bridge \<times> event list \<times> outcome" where
  "quic_to_tcp dial b [] = (b, [], Waiting)"
| "quic_to_tcp dial b (Turn data rerr ew # rest) =
     (if length data > 0 then
        (case tcpConn b of
           None \<Rightarrow>
             (let b1 = b\<lparr>target := string_of_bytes data\<rparr> in
              case dial (target b1) of
                None \<Rightarrow> (b1, [QuicRead data, Dial (target b1)], Returned)
              | Some tcp \<Rightarrow>
                  emit [QuicRead data, Dial (target b1)]
                    (quic_to_tcp dial (b1\<lparr>tcpConn := Some tcp\<rparr>) rest))
         | Some tcp \<Rightarrow>
             (let b1 = b\<lparr>BytesReceived := BytesReceived b + of_nat (length data)\<rparr> in
              if ew \<noteq> WriteOk then (b1, [QuicRead data, TcpWrite tcp data], Returned)
              else if rerr then (b1, [QuicRead data, TcpWrite tcp data], Returned)
              else emit [QuicRead data, TcpWrite tcp data] (quic_to_tcp dial b1 rest)))
      else if rerr then (b, [QuicRead data], Returned)
      else emit [QuicRead data] (quic_to_tcp dial b rest))"

text \<open>
  \<^verbatim>\<open>startQUIC\<close>, TCP to QUIC, once \<^verbatim>\<open>b.tcpConn\<close> is set; until then the loop sleeps and
  looks again.
\<close>

fun tcp_to_quic :: "Bridge \<Rightarrow> turn list \<Rightarrow> Bridge \<times> event list \<times> outcome" where
  "tcp_to_quic b [] = (b, [], Waiting)"
| "tcp_to_quic b (Turn data rerr ew # rest) =
     (case tcpConn b of
        None \<Rightarrow> (b, [], Waiting)
      | Some tcp \<Rightarrow>
          if length data > 0 then
            (let b1 = b\<lparr>BytesSent := BytesSent b + of_nat (length data)\<rparr> in
             if ew \<noteq> WriteOk then (b1, [TcpRead data, QuicWrite data], Returned)
             else if rerr then (b1, [TcpRead data, QuicWrite data], Returned)
             else emit [TcpRead data, QuicWrite data] (tcp_to_quic b1 rest))
          else if rerr then (b, [TcpRead data], Returned)
          else emit [TcpRead data] (tcp_to_quic b rest))"

definition NewQUICBridge :: "nat \<Rightarrow> conn option \<Rightarrow> Bridge" where
  "NewQUICBridge qs tcp =
     \<lparr>bridgeType = QUICBridge, ws = None, quicStr = Some qs, tcpConn = tcp,
      BytesSent = 0, BytesReceived = 0, target = []\<rparr>"

definition NewWSBridge :: "nat \<Rightarrow> conn \<Rightarrow> Bridge" where
  "NewWSBridge w tcp =
     \<lparr>bridgeType = WSBridge, ws = Some w, quicStr = None, tcpConn = Some tcp,
      BytesSent = 0, BytesReceived = 0, target = []\<rparr>"

text \<open>\<^verbatim>\<open>Close\<close>: the calls it makes on the endpoints, in order.\<close>

definition Close :: "Bridge \<Rightarrow> event list" where
  "Close b =
     (if ws b \<noteq> None then [WsClose] else [])
     @ (if quicStr b \<noteq> None then [CancelRead 0, CancelWrite 0] else [])
     @ (case tcpConn b of None \<Rightarrow> [] | Some tcp \<Rightarrow> [TcpClose tcp])"








subsection \<open>QUIC sessions and the idle reaper (package server)\<close>

record sessionState =
  streams :: "nat \<rightharpoonup> Bridge"
  lastActive :: time

record Server =
  sessions :: "string \<rightharpoonup> sessionState"

definition second :: int where
  "second = 1000000000"

text \<open>
  \<^verbatim>\<open>handleQUICSession\<close>, entry: the session is registered under the peer's address with
  \<^verbatim>\<open>lastActive: time.Now()\<close>.
\<close>

definition session_start :: "time \<Rightarrow> string \<Rightarrow> Server \<Rightarrow> Server" where
  "session_start now addr s =
     s\<lparr>sessions := (sessions s)(addr \<mapsto> \<lparr>streams = Map.empty, lastActive = now\<rparr>)\<rparr>"

text \<open>
  \<^verbatim>\<open>handleQUICSession\<close>, one pass of the accept loop for an accepted stream \<open>sid\<close>: the
  bridge is created with no TCP connection and stored, and \<^verbatim>\<open>st.lastActive = time.Now()\<close>.
\<close>

definition session_accept :: "time \<Rightarrow> string \<Rightarrow> nat \<Rightarrow> Server \<Rightarrow> Server" where
  "session_accept now addr sid s =
     (case sessions s addr of
        None \<Rightarrow> s
      | Some st \<Rightarrow>
          s\<lparr>sessions := (sessions s)(addr \<mapsto>
               st\<lparr>streams := (streams st)(sid \<mapsto> NewQUICBridge sid None), lastActive := now\<rparr>)\<rparr>)"

text \<open>
  Bytes flowing on a stream of a session: one pass of the bridge's QUIC to TCP loop, or of
  its TCP to QUIC loop. The loops work on the bridge that the session's map points to.
\<close>

definition session_inbound :: "(string \<Rightarrow> conn option) \<Rightarrow> string \<Rightarrow> nat \<Rightarrow> turn \<Rightarrow> Server \<Rightarrow> Server" where
  "session_inbound dial addr sid t s =
     (case sessions s addr of
        None \<Rightarrow> s
      | Some st \<Rightarrow>
          (case streams st sid of
             None \<Rightarrow> s
           | Some b \<Rightarrow>
               s\<lparr>sessions := (sessions s)(addr \<mapsto>
                    st\<lparr>streams := (streams st)(sid \<mapsto> fst (quic_to_tcp dial b [t]))\<rparr>)\<rparr>))"

definition session_outbound :: "string \<Rightarrow> nat \<Rightarrow> turn \<Rightarrow> Server \<Rightarrow> Server" where
  "session_outbound addr sid t s =
     (case sessions s addr of
        None \<Rightarrow> s
      | Some st \<Rightarrow>
          (case streams st sid of
             None \<Rightarrow> s
           | Some b \<Rightarrow>
               s\<lparr>sessions := (sessions s)(addr \<mapsto>
                    st\<lparr>streams := (streams st)(sid \<mapsto> fst (tcp_to_quic b [t]))\<rparr>)\<rparr>))"

text \<open>
  \<^verbatim>\<open>cleanupIdleSessions\<close>, one tick: every session with
  \<^verbatim>\<open>now.Sub(st.lastActive) > 30*time.Second\<close> is closed (\<^verbatim>\<open>CloseWithError(0, "idle timeout")\<close>)
  and deleted from the table.
\<close>

definition cleanupIdleSessions :: "time \<Rightarrow> Server \<Rightarrow> Server" where
  "cleanupIdleSessions now s =
     s\<lparr>sessions := (\<lambda>addr.
          case sessions s addr of
            None \<Rightarrow> None
          | Some st \<Rightarrow> if now - lastActive st > 30 * second then None else Some st)\<rparr>"

text \<open>
  What happens to the server, each with the time at which it happens. The loops do not
  read the clock, so the time of a transfer is not an argument of the step it takes.
\<close>

datatype sess_event =
    Start time string
  | Accept time string nat
  | Inbound time string nat turn
  | Outbound time string nat turn
  | Scan time

fun server_step :: "(string \<Rightarrow> conn option) \<Rightarrow> Server \<Rightarrow> sess_event \<Rightarrow> Server" where
  "server_step dial s (Start now addr) = session_start now addr s"
| "server_step dial s (Accept now addr sid) = session_accept now addr sid s"
| "server_step dial s (Inbound now addr sid t) = session_inbound dial addr sid t s"
| "server_step dial s (Outbound now addr sid t) = session_outbound addr sid t s"
| "server_step dial s (Scan now) = cleanupIdleSessions now s"

definition server_run :: "(string \<Rightarrow> conn option) \<Rightarrow> Server \<Rightarrow> sess_event list \<Rightarrow> Server" where
  "server_run dial s evs = foldl (server_step dial) s evs"

fun is_traffic :: "sess_event \<Rightarrow> bool" where
  "is_traffic (Inbound now addr sid t) = True"
| "is_traffic (Outbound now addr sid t) = True"
| "is_traffic e = False"

section \<open>Properties\<close>

subsection \<open>Target validation\<close>

lemma ReplaceAll_Nil: "ReplaceAll [] old new = []"
  by (simp add: ReplaceAll.simps)

lemma ReplaceAll_Cons:
  "ReplaceAll (c # s) (a # as) new =
     (if take (length (a # as)) (c # s) = a # as
      then new @ ReplaceAll (drop (length (a # as)) (c # s)) (a # as) new
      else c # ReplaceAll s (a # as) new)"
  by (subst ReplaceAll.simps) simp

lemma special_star: "special CHR ''*''"
  by (simp add: special_def ContainsByte_def)

lemma special_backslash: "special backslash"
  by (simp add: special_def)

lemma backslash_not_star: "backslash \<noteq> CHR ''*''"
  by (simp add: backslash_def)

lemma hd_QuoteMeta_not_star: "hd (QuoteMeta t @ ''$'') \<noteq> CHR ''*''"
  using special_star backslash_not_star by (cases t) auto

text \<open>
  What the code makes of one byte of a wildcard entry: \<^verbatim>\<open>*\<close> becomes \<^verbatim>\<open>.*\<close>, every other
  special byte (\<^verbatim>\<open>?\<close> among them) is escaped, the rest is copied.
\<close>

lemma ReplaceAll_QuoteMeta:
  "ReplaceAll (QuoteMeta t @ ''$'') [backslash, CHR ''*''] ''.*''
     = concat (map (\<lambda>c. if c = CHR ''*'' then ''.*'' else if special c then [backslash, c] else [c]) t)
       @ ''$''"
proof (induction t)
  case Nil
  show ?case by (simp add: ReplaceAll_Cons ReplaceAll_Nil)
next
  case (Cons c t)
  obtain x xs where q: "QuoteMeta t @ ''$'' = x # xs" and x: "x \<noteq> CHR ''*''"
    using hd_QuoteMeta_not_star [of t] by (cases "QuoteMeta t @ ''$''") auto
  show ?case
  proof (cases "c = CHR ''*''")
    case True
    then show ?thesis
      using Cons.IH special_star by (simp add: ReplaceAll_Cons)
  next
    case star: False
    show ?thesis
    proof (cases "special c")
      case True
      have "ReplaceAll (QuoteMeta (c # t) @ ''$'') [backslash, CHR ''*''] ''.*''
          = backslash # ReplaceAll (c # x # xs) [backslash, CHR ''*''] ''.*''"
        using True star q by (simp add: ReplaceAll_Cons)
      also have "\<dots> = backslash # c # ReplaceAll (x # xs) [backslash, CHR ''*''] ''.*''"
        using x by (simp add: ReplaceAll_Cons [of c])
      finally show ?thesis
        using True star Cons.IH q by simp
    next
      case False
      then have "c \<noteq> backslash"
        using special_backslash by auto
      then show ?thesis
        using False star Cons.IH by (simp add: ReplaceAll_Cons [of c])
    qed
  qed
qed

lemma wildcardPattern_code:
  "wildcardPattern t
     = ''^'' @ concat (map (\<lambda>c. if c = CHR ''*'' then ''.*'' else if special c then [backslash, c] else [c]) t)
       @ ''$''"
proof -
  have "CHR ''^'' \<noteq> backslash"
    by (simp add: backslash_def)
  then show ?thesis
    using ReplaceAll_QuoteMeta [of t] by (simp add: wildcardPattern_def ReplaceAll_Cons [of "CHR ''^''"])
qed

text \<open>For an entry without \<^verbatim>\<open>?\<close> the code builds the pattern that the specification describes.\<close>

lemma wildcardPattern_without_question_mark:
  assumes "CHR ''?'' \<notin> set t"
  shows "wildcardPattern t = spec_wildcardPattern t"
proof -
  have "concat (map (\<lambda>c. if c = CHR ''*'' then ''.*'' else if special c then [backslash, c] else [c]) t)
      = concat (map spec_byte t)"
    using assms by (induction t) (auto simp add: spec_byte_def)
  then show ?thesis
    by (simp only: wildcardPattern_code spec_wildcardPattern_def)
qed

text \<open>
  C3. The claim: in the pattern compiled for a wildcard entry every \<^verbatim>\<open>*\<close> is replaced by \<^verbatim>\<open>.*\<close>
  and every \<^verbatim>\<open>?\<close> by \<^verbatim>\<open>.\<close>. The code, on the entry \<^verbatim>\<open>a?c:80\<close>: the entry takes the wildcard
  branch, but its pattern is \<^verbatim>\<open>^a\?c:80$\<close>, not the \<^verbatim>\<open>^a.c:80$\<close> of the specification; the
  compiled rule allows the target \<^verbatim>\<open>a?c:80\<close> and denies \<^verbatim>\<open>abc:80\<close>.
\<close>

theorem wildcardPattern_question_mark_escaped:
  "ContainsAny ''a?c:80'' ''*?''
   \<and> wildcardPattern ''a?c:80'' = ''^a'' @ [backslash] @ ''?c:80$''
   \<and> spec_wildcardPattern ''a?c:80'' = ''^a.c:80$''
   \<and> wildcardPattern ''a?c:80'' \<noteq> spec_wildcardPattern ''a?c:80''
   \<and> (case compileRules exlib [''a?c:80''] of
         Inl e \<Rightarrow> False
       | Inr rules \<Rightarrow> isAllowedEnhanced exlib rules ''a?c:80''
                      \<and> \<not> isAllowedEnhanced exlib rules ''abc:80'')"
proof -
  have w: "wildcardPattern ''a?c:80'' = ''^a'' @ [backslash] @ ''?c:80$''"
    by (simp add: wildcardPattern_code special_def ContainsByte_def backslash_def)
  have s: "spec_wildcardPattern ''a?c:80'' = ''^a.c:80$''"
    by (simp add: spec_wildcardPattern_def spec_byte_def special_def ContainsByte_def backslash_def)
  have c: "compileRules exlib [''a?c:80'']
      = Inr [\<lparr>Raw = ''a?c:80'',
              Regex = Some [Lit CHR ''a'', Lit CHR ''?'', Lit CHR ''c'', Lit CHR '':'', Lit CHR ''8'', Lit CHR ''0''],
              CIDRNet = None, IsDomain = True\<rparr>]"
    by (simp add: compileRule_def w ContainsByte_def ContainsAny_def exlib_def rx_compile_def
        special_def backslash_def)
  have m: "rx_match [Lit CHR ''a'', Lit CHR ''?'', Lit CHR ''c'', Lit CHR '':'', Lit CHR ''8'', Lit CHR ''0''] ''a?c:80''"
    "\<not> rx_match [Lit CHR ''a'', Lit CHR ''?'', Lit CHR ''c'', Lit CHR '':'', Lit CHR ''8'', Lit CHR ''0''] ''abc:80''"
    by simp_all
  have a: "isAllowedEnhanced exlib
       [\<lparr>Raw = ''a?c:80'',
         Regex = Some [Lit CHR ''a'', Lit CHR ''?'', Lit CHR ''c'', Lit CHR '':'', Lit CHR ''8'', Lit CHR ''0''],
         CIDRNet = None, IsDomain = True\<rparr>] ''a?c:80''"
    "\<not> isAllowedEnhanced exlib
       [\<lparr>Raw = ''a?c:80'',
         Regex = Some [Lit CHR ''a'', Lit CHR ''?'', Lit CHR ''c'', Lit CHR '':'', Lit CHR ''8'', Lit CHR ''0''],
         CIDRNet = None, IsDomain = True\<rparr>] ''abc:80''"
    using m by (simp_all add: isAllowedEnhanced_def rule_hit_def exlib_def)
  have d: "wildcardPattern ''a?c:80'' \<noteq> spec_wildcardPattern ''a?c:80''"
    by (simp add: w s backslash_def)
  have e: "ContainsAny ''a?c:80'' ''*?''"
    by (simp add: ContainsAny_def ContainsByte_def)
  show ?thesis
    unfolding c using w s d e a by simp
qed

lemma rules_loop_append:
  "rules_loop L h t (rs @ rs') = (rules_loop L h t rs \<or> rules_loop L h t rs')"
  by (induction rs) auto

text \<open>
  C7, as stated: a target allowed under \<open>rs\<close> stays allowed under \<open>rs @ rs'\<close>. With no rule
  every target is allowed, so the claim fails for the empty list: \<^verbatim>\<open>b:2\<close> is allowed
  under no rules and denied once the rule compiled from the entry \<^verbatim>\<open>a:1\<close> is added.
\<close>

theorem isAllowedEnhanced_monotone_counterexample:
  "compileRules exlib [''a:1''] = Inr [\<lparr>Raw = ''a:1'', Regex = None, CIDRNet = None, IsDomain = False\<rparr>]
   \<and> isAllowedEnhanced exlib [] ''b:2''
   \<and> \<not> isAllowedEnhanced exlib ([] @ [\<lparr>Raw = ''a:1'', Regex = None, CIDRNet = None, IsDomain = False\<rparr>]) ''b:2''"
  by (simp add: compileRule_def ContainsByte_def ContainsAny_def isAllowedEnhanced_def rule_hit_def)

text \<open>
  C7, amended: for every non-empty rule list \<open>rs\<close>, every list of additional rules \<open>rs'\<close>
  and every target \<open>t\<close>, if the authorizer allows \<open>t\<close> under \<open>rs\<close> then it allows \<open>t\<close> under
  \<open>rs @ rs'\<close>.
\<close>

theorem isAllowedEnhanced_monotone_nonempty:
  assumes "rs \<noteq> []" and "isAllowedEnhanced L rs t"
  shows "isAllowedEnhanced L (rs @ rs') t"
  using assms by (simp add: isAllowedEnhanced_def rules_loop_append)

theorem isAllowedEnhanced_monotone_nonempty_witness:
  "[\<lparr>Raw = ''a:1'', Regex = None, CIDRNet = None, IsDomain = False\<rparr>] \<noteq> []
   \<and> isAllowedEnhanced exlib [\<lparr>Raw = ''a:1'', Regex = None, CIDRNet = None, IsDomain = False\<rparr>] ''a:1''
   \<and> isAllowedEnhanced exlib
        ([\<lparr>Raw = ''a:1'', Regex = None, CIDRNet = None, IsDomain = False\<rparr>]
         @ [\<lparr>Raw = ''example.org'', Regex = None, CIDRNet = None, IsDomain = True\<rparr>]) ''a:1''"
proof -
  have n: "[\<lparr>Raw = ''a:1'', Regex = None, CIDRNet = None, IsDomain = False\<rparr>]
      \<noteq> ([] :: (tok list, unit) TargetRule list)"
    by simp
  have a: "isAllowedEnhanced exlib [\<lparr>Raw = ''a:1'', Regex = None, CIDRNet = None, IsDomain = False\<rparr>] ''a:1''"
    by (simp add: isAllowedEnhanced_def rule_hit_def)
  show ?thesis
    using n a isAllowedEnhanced_monotone_nonempty [OF n a] by simp
qed

subsection \<open>WebSocket frames\<close>

lemma Uint32_PutUint32:
  "Uint32 (PutUint32 v ! 0) (PutUint32 v ! 1) (PutUint32 v ! 2) (PutUint32 v ! 3) = v"
proof (rule bit_word_eqI)
  fix n :: nat
  assume "n < LENGTH(32)"
  then consider "n < 8" | "8 \<le> n" "n < 16" | "16 \<le> n" "n < 24" | "24 \<le> n" "n < 32"
    by fastforce
  then show "bit (Uint32 (PutUint32 v ! 0) (PutUint32 v ! 1) (PutUint32 v ! 2) (PutUint32 v ! 3)) n
      = bit v n"
    by cases (auto simp add: Uint32_def PutUint32_def bit_simps)
qed

lemma length_PutUint32: "length (PutUint32 v) = 4"
  by (simp add: PutUint32_def)

lemma WSFrame_header:
  "take 8 (WSFrame sid data) = PutUint32 sid @ PutUint32 (of_nat (length data))"
  "drop 8 (WSFrame sid data) = data"
  "length (WSFrame sid data) = 8 + length data"
  by (simp_all add: WSFrame_def length_PutUint32)

lemma header_nth:
  "(PutUint32 a @ PutUint32 b) ! 0 = PutUint32 a ! 0"
  "(PutUint32 a @ PutUint32 b) ! 1 = PutUint32 a ! 1"
  "(PutUint32 a @ PutUint32 b) ! 2 = PutUint32 a ! 2"
  "(PutUint32 a @ PutUint32 b) ! 3 = PutUint32 a ! 3"
  "(PutUint32 a @ PutUint32 b) ! 4 = PutUint32 b ! 0"
  "(PutUint32 a @ PutUint32 b) ! 5 = PutUint32 b ! 1"
  "(PutUint32 a @ PutUint32 b) ! 6 = PutUint32 b ! 2"
  "(PutUint32 a @ PutUint32 b) ! 7 = PutUint32 b ! 3"
  by (simp_all add: nth_append length_PutUint32)

lemma readWSFrame_WSFrame_eq:
  assumes "length data < 2 ^ 32"
  shows "readWSFrame (WSFrame sid data) = (sid, data, None)"
proof -
  have len: "unat (of_nat (length data) :: uint32) = length data"
    using assms by (simp add: unat_of_nat)
  have hd: "ReadFull (WSFrame sid data) 8
      = (PutUint32 sid @ PutUint32 (of_nat (length data)), data, None)"
    by (simp add: ReadFull_def WSFrame_header)
  have pl: "ReadFull data (length data) = (data, [], None)"
    by (simp add: ReadFull_def)
  define h where "h = PutUint32 sid @ PutUint32 (of_nat (length data))"
  have sidv: "Uint32 (h ! 0) (h ! 1) (h ! 2) (h ! 3) = sid"
    unfolding h_def by (simp only: header_nth Uint32_PutUint32)
  have lenv: "Uint32 (h ! 4) (h ! 5) (h ! 6) (h ! 7) = of_nat (length data)"
    unfolding h_def by (simp only: header_nth Uint32_PutUint32)
  show ?thesis
    unfolding readWSFrame_def hd h_def [symmetric]
    by (simp only: prod.case option.case Let_def sidv lenv len pl)
qed

text \<open>
  C9. For every stream id and every payload shorter than \<open>2^32\<close> bytes, \<^verbatim>\<open>readWSFrame\<close> on
  the message that \<^verbatim>\<open>writeWSFrame\<close> sends (4 bytes big-endian stream id, 4 bytes big-endian
  length, then the payload) returns exactly the stream id and the payload, with no error.
\<close>

theorem readWSFrame_WSFrame:
  assumes "length data < 2 ^ 32"
  shows "readWSFrame (WSFrame sid data) = (sid, data, None)"
  using assms by (rule readWSFrame_WSFrame_eq)

theorem readWSFrame_WSFrame_witness:
  "length [0x68, 0x69 :: byte] < 2 ^ 32
   \<and> WSFrame 1 [0x68, 0x69] = [0, 0, 0, 1, 0, 0, 0, 2, 0x68, 0x69]
   \<and> readWSFrame [0, 0, 0, 1, 0, 0, 0, 2, 0x68, 0x69] = (1, [0x68, 0x69], None)"
proof -
  have h: "length [0x68, 0x69 :: byte] < 2 ^ 32"
    by simp
  have w: "WSFrame 1 [0x68, 0x69] = [0, 0, 0, 1, 0, 0, 0, 2, 0x68, 0x69]"
    by (simp add: WSFrame_def PutUint32_def)
  show ?thesis
    using h w readWSFrame_WSFrame [OF h, of 1] by simp
qed

subsection \<open>Bridge copy loops\<close>

lemma string_of_bytes_of_string: "string_of_bytes (bytes_of_string s) = s"
  by (induction s) (simp_all add: string_of_bytes_def bytes_of_string_def unat_of_nat)

















text \<open>
  The parts of C2 that hold. A read of zero bytes with no error goes round the loop again,
  in all three loops that read bytes.
\<close>

lemma zero_read_retries:
  "quic_to_tcp dial b (Turn [] False ew # rest) = emit [QuicRead []] (quic_to_tcp dial b rest)"
  "tcpConn b = Some c \<Longrightarrow>
     tcp_to_quic b (Turn [] False ew # rest) = emit [TcpRead []] (tcp_to_quic b rest)"
  "tcpConn b = Some c \<Longrightarrow>
     tcp_to_ws b (Turn [] False ew # rest) = emit [TcpRead []] (tcp_to_ws b rest)"
  by simp_all

text \<open>A read error ends the loop, in all four loops, whatever would follow.\<close>

lemma read_error_returns:
  "tcpConn b = Some c \<Longrightarrow> snd (snd (quic_to_tcp dial b (Turn d True ew # rest))) = Returned"
  "tcpConn b = Some c \<Longrightarrow> snd (snd (tcp_to_quic b (Turn d True ew # rest))) = Returned"
  "tcpConn b = Some c \<Longrightarrow> snd (snd (tcp_to_ws b (Turn d True ew # rest))) = Returned"
  "snd (snd (ws_to_tcp b (WsErr # msgs))) = Returned"
  "snd (snd (readWSFrame msg)) \<noteq> None \<Longrightarrow>
     snd (snd (ws_to_tcp b (WsMsg BinaryMessage msg ew # msgs))) = Returned"
  by (auto simp add: Let_def split: prod.splits option.splits)

text \<open>A write error ends the loop in three of the four loops.\<close>

lemma write_error_returns:
  "tcpConn b = Some c \<Longrightarrow> d \<noteq> [] \<Longrightarrow>
     snd (snd (quic_to_tcp dial b (Turn d rerr (WriteErr k) # rest))) = Returned"
  "tcpConn b = Some c \<Longrightarrow> d \<noteq> [] \<Longrightarrow>
     snd (snd (tcp_to_quic b (Turn d rerr (WriteErr k) # rest))) = Returned"
  "tcpConn b = Some c \<Longrightarrow> d \<noteq> [] \<Longrightarrow>
     snd (snd (tcp_to_ws b (Turn d rerr (WriteErr k) # rest))) = Returned"
  by (simp_all add: Let_def)

text \<open>
  In the WS to TCP loop the error of \<^verbatim>\<open>b.tcpConn.Write\<close> is dropped: the loop counts the
  bytes written and goes on with the next message.
\<close>

lemma ws_to_tcp_write_error_goes_on:
  assumes "tcpConn b = Some c" and "length payload < 2 ^ 32"
  shows "ws_to_tcp b (WsMsg BinaryMessage (WSFrame 1 payload) (WriteErr k) # rest)
    = emit [WsRead (WSFrame 1 payload), TcpWrite c payload]
        (ws_to_tcp (b\<lparr>BytesReceived := BytesReceived b + of_nat k\<rparr>) rest)"
  using assms by (simp add: readWSFrame_WSFrame_eq Let_def)

text \<open>
  On the pass that takes the target, the QUIC to TCP loop goes round again without looking
  at the read's error.
\<close>

lemma quic_to_tcp_target_pass_skips_read_error:
  assumes "tcpConn b = None" and "d \<noteq> []" and "dial (string_of_bytes d) = Some c"
  shows "quic_to_tcp dial b (Turn d True ew # rest)
    = emit [QuicRead d, Dial (string_of_bytes d)]
        (quic_to_tcp dial (b\<lparr>target := string_of_bytes d, tcpConn := Some c\<rparr>) rest)"
  using assms by (simp add: Let_def)

text \<open>
  C2. The claim: in each direction, any error of the read or of the write ends that
  direction's loop. The code, WS to TCP, on two binary messages for stream 1 where the TCP
  write of the first one fails: the loop does not return; it reads the second message and
  writes it too, and then waits for a third.
\<close>

theorem ws_to_tcp_ignores_write_error:
  "ws_to_tcp (NewWSBridge 0 7)
     [WsMsg BinaryMessage (WSFrame 1 [0x68]) (WriteErr 0),
      WsMsg BinaryMessage (WSFrame 1 [0x69]) WriteOk]
   = ((NewWSBridge 0 7)\<lparr>BytesReceived := 1\<rparr>,
      [WsRead (WSFrame 1 [0x68]), TcpWrite 7 [0x68],
       WsRead (WSFrame 1 [0x69]), TcpWrite 7 [0x69]],
      Waiting)"
proof -
  have f: "readWSFrame (WSFrame 1 [0x68]) = (1, [0x68], None)"
    "readWSFrame (WSFrame 1 [0x69]) = (1, [0x69], None)"
    by (simp_all add: readWSFrame_WSFrame_eq)
  show ?thesis
    by (simp add: f NewWSBridge_def emit_def Let_def BinaryMessage_def)
qed

text \<open>
  C1. The claim: the target of a deferred-dial QUIC bridge is checked against the compiled
  allow-list before any dial, and a denied target is never dialed. The code, with the
  allow-list \<^verbatim>\<open>127.0.0.1:9000\<close> and a stream whose first chunk is \<^verbatim>\<open>127.0.0.1:22\<close>: the
  authorizer denies that target, and the bridge dials it all the same and forwards what
  follows. The loop takes no rules; the only resets are those of \<^verbatim>\<open>Close\<close>, with code 0.
\<close>

theorem quic_bridge_dials_denied_target:
  "compileRules exlib [''127.0.0.1:9000'']
     = Inr [\<lparr>Raw = ''127.0.0.1:9000'', Regex = None, CIDRNet = None, IsDomain = False\<rparr>]
   \<and> \<not> isAllowedEnhanced exlib
         [\<lparr>Raw = ''127.0.0.1:9000'', Regex = None, CIDRNet = None, IsDomain = False\<rparr>] ''127.0.0.1:22''
   \<and> quic_to_tcp (\<lambda>t. Some 7) (NewQUICBridge 0 None)
        [Turn (bytes_of_string ''127.0.0.1:22'') False WriteOk, Turn [0x68, 0x69] False WriteOk]
      = ((NewQUICBridge 0 None)\<lparr>target := ''127.0.0.1:22'', tcpConn := Some 7, BytesReceived := 2\<rparr>,
         [QuicRead (bytes_of_string ''127.0.0.1:22''), Dial ''127.0.0.1:22'',
          QuicRead [0x68, 0x69], TcpWrite 7 [0x68, 0x69]],
         Waiting)
   \<and> Close ((NewQUICBridge 0 None)\<lparr>target := ''127.0.0.1:22'', tcpConn := Some 7, BytesReceived := 2\<rparr>)
      = [CancelRead 0, CancelWrite 0, TcpClose 7]"
proof -
  have c: "compileRules exlib [''127.0.0.1:9000'']
     = Inr [\<lparr>Raw = ''127.0.0.1:9000'', Regex = None, CIDRNet = None, IsDomain = False\<rparr>]"
    by (simp add: compileRule_def ContainsByte_def ContainsAny_def)
  have a: "\<not> isAllowedEnhanced exlib
         [\<lparr>Raw = ''127.0.0.1:9000'', Regex = None, CIDRNet = None, IsDomain = False\<rparr>] ''127.0.0.1:22''"
    by (simp add: isAllowedEnhanced_def rule_hit_def)
  have ne: "bytes_of_string ''127.0.0.1:22'' \<noteq> []"
    by (simp add: bytes_of_string_def)
  have q: "quic_to_tcp (\<lambda>t. Some 7) (NewQUICBridge 0 None)
        [Turn (bytes_of_string ''127.0.0.1:22'') False WriteOk, Turn [0x68, 0x69] False WriteOk]
      = ((NewQUICBridge 0 None)\<lparr>target := ''127.0.0.1:22'', tcpConn := Some 7, BytesReceived := 2\<rparr>,
         [QuicRead (bytes_of_string ''127.0.0.1:22''), Dial ''127.0.0.1:22'',
          QuicRead [0x68, 0x69], TcpWrite 7 [0x68, 0x69]],
         Waiting)"
    using ne by (simp add: NewQUICBridge_def string_of_bytes_of_string emit_def Let_def)
  have k: "Close ((NewQUICBridge 0 None)\<lparr>target := ''127.0.0.1:22'', tcpConn := Some 7, BytesReceived := 2\<rparr>)
      = [CancelRead 0, CancelWrite 0, TcpClose 7]"
    by (simp add: Close_def NewQUICBridge_def)
  show ?thesis
    using c a q k by simp
qed

subsection \<open>QUIC sessions and the idle reaper\<close>

text \<open>Accepting a stream sets \<open>lastActive\<close> of its session to the time of the accept.\<close>

lemma accept_sets_lastActive:
  assumes "sessions s a = Some st"
  shows "map_option lastActive (sessions (server_step dial s (Accept now a sid)) a) = Some now"
  using assms by (simp add: session_accept_def)

text \<open>Bytes flowing on a bridge leave \<open>lastActive\<close> of every session as it was.\<close>

lemma traffic_keeps_lastActive:
  assumes "is_traffic e"
  shows "map_option lastActive (sessions (server_step dial s e) a) = map_option lastActive (sessions s a)"
  using assms
  by (cases e) (auto simp add: session_inbound_def session_outbound_def split: option.splits)

lemma traffic_run_keeps_lastActive:
  assumes "\<forall>e \<in> set evs. is_traffic e"
  shows "map_option lastActive (sessions (server_run dial s evs) a) = map_option lastActive (sessions s a)"
  using assms
proof (induction evs arbitrary: s)
  case Nil
  show ?case by (simp add: server_run_def)
next
  case (Cons e evs)
  have "server_run dial s (e # evs) = server_run dial (server_step dial s e) evs"
    by (simp add: server_run_def)
  with Cons show ?case
    by (simp add: traffic_keeps_lastActive)
qed

text \<open>
  So the reaper closes a session whose last stream was accepted more than 30 seconds
  before the scan, whatever traffic its streams have carried since.
\<close>

lemma busy_session_reaped:
  assumes "sessions s a = Some st" and "\<forall>e \<in> set evs. is_traffic e"
    and "now - lastActive st > 30 * second"
  shows "sessions (cleanupIdleSessions now (server_run dial s evs)) a = None"
proof -
  have "map_option lastActive (sessions (server_run dial s evs) a) = Some (lastActive st)"
    using assms(1,2) by (simp add: traffic_run_keeps_lastActive)
  then obtain st' where "sessions (server_run dial s evs) a = Some st'" and "lastActive st' = lastActive st"
    by auto
  with assms(3) show ?thesis
    by (simp add: cleanupIdleSessions_def)
qed

text \<open>
  C8. The claim: \<open>lastActive\<close> advances when a stream is accepted and when bytes flow on a
  bridge of the session, so a session carrying traffic is not reaped. The code: a session
  starts at time 0 and accepts one stream; the stream carries the target at 1 s and data at
  35 s (inbound) and 36 s (outbound). After that \<open>lastActive\<close> is still 0, the scan at 30 s
  keeps the session and the scan at 40 s removes it, 4 seconds after its last transfer.
\<close>

theorem reaper_closes_session_with_traffic:
  "map_option lastActive
     (sessions (server_run (\<lambda>t. Some 7) \<lparr>sessions = Map.empty\<rparr>
        [Start 0 ''c'', Accept 0 ''c'' 0,
         Inbound (1 * second) ''c'' 0 (Turn (bytes_of_string ''a:1'') False WriteOk),
         Scan (30 * second),
         Inbound (35 * second) ''c'' 0 (Turn [0x68, 0x69] False WriteOk),
         Outbound (36 * second) ''c'' 0 (Turn [0x6F, 0x6B] False WriteOk)]) ''c'') = Some 0
   \<and> sessions (server_run (\<lambda>t. Some 7) \<lparr>sessions = Map.empty\<rparr>
        [Start 0 ''c'', Accept 0 ''c'' 0,
         Inbound (1 * second) ''c'' 0 (Turn (bytes_of_string ''a:1'') False WriteOk),
         Scan (30 * second),
         Inbound (35 * second) ''c'' 0 (Turn [0x68, 0x69] False WriteOk),
         Outbound (36 * second) ''c'' 0 (Turn [0x6F, 0x6B] False WriteOk),
         Scan (40 * second)]) ''c'' = None"
proof -
  define s2 where "s2 = server_run (\<lambda>t. Some 7) \<lparr>sessions = Map.empty\<rparr> [Start 0 ''c'', Accept 0 ''c'' 0]"
  have s2: "sessions s2 ''c'' = Some \<lparr>streams = [0 \<mapsto> NewQUICBridge 0 None], lastActive = 0\<rparr>"
    by (simp add: s2_def server_run_def session_start_def session_accept_def)
  define s3 where "s3 = server_step (\<lambda>t. Some 7) s2
    (Inbound (1 * second) ''c'' 0 (Turn (bytes_of_string ''a:1'') False WriteOk))"
  have "map_option lastActive (sessions s3 ''c'') = map_option lastActive (sessions s2 ''c'')"
    unfolding s3_def by (rule traffic_keeps_lastActive) simp
  then have l3: "map_option lastActive (sessions s3 ''c'') = Some 0"
    by (simp add: s2)
  define s4 where "s4 = server_step (\<lambda>t. Some 7) s3 (Scan (30 * second))"
  have l4: "map_option lastActive (sessions s4 ''c'') = Some 0"
    unfolding s4_def using l3 by (auto simp add: cleanupIdleSessions_def second_def)
  then obtain st where st: "sessions s4 ''c'' = Some st" and la: "lastActive st = 0"
    by auto
  define tr where "tr = [Inbound (35 * second) ''c'' 0 (Turn [0x68, 0x69] False WriteOk),
         Outbound (36 * second) ''c'' 0 (Turn [0x6F, 0x6B] False WriteOk)]"
  have tt: "\<forall>e \<in> set tr. is_traffic e"
    by (simp add: tr_def)
  have run6: "server_run (\<lambda>t. Some 7) \<lparr>sessions = Map.empty\<rparr>
        [Start 0 ''c'', Accept 0 ''c'' 0,
         Inbound (1 * second) ''c'' 0 (Turn (bytes_of_string ''a:1'') False WriteOk),
         Scan (30 * second),
         Inbound (35 * second) ''c'' 0 (Turn [0x68, 0x69] False WriteOk),
         Outbound (36 * second) ''c'' 0 (Turn [0x6F, 0x6B] False WriteOk)]
      = server_run (\<lambda>t. Some 7) s4 tr"
    by (simp only: server_run_def s4_def s3_def s2_def tr_def foldl.simps)
  have run7: "server_run (\<lambda>t. Some 7) \<lparr>sessions = Map.empty\<rparr>
        [Start 0 ''c'', Accept 0 ''c'' 0,
         Inbound (1 * second) ''c'' 0 (Turn (bytes_of_string ''a:1'') False WriteOk),
         Scan (30 * second),
         Inbound (35 * second) ''c'' 0 (Turn [0x68, 0x69] False WriteOk),
         Outbound (36 * second) ''c'' 0 (Turn [0x6F, 0x6B] False WriteOk),
         Scan (40 * second)]
      = cleanupIdleSessions (40 * second) (server_run (\<lambda>t. Some 7) s4 tr)"
    by (simp only: server_run_def s4_def s3_def s2_def tr_def foldl.simps server_step.simps)
  have "map_option lastActive (sessions (server_run (\<lambda>t. Some 7) s4 tr) ''c'')
      = map_option lastActive (sessions s4 ''c'')"
    using tt by (rule traffic_run_keeps_lastActive)
  then have a: "map_option lastActive (sessions (server_run (\<lambda>t. Some 7) s4 tr) ''c'') = Some 0"
    by (simp add: st la)
  have "40 * second - lastActive st > 30 * second"
    by (simp add: la second_def)
  from busy_session_reaped [OF st tt this]
  have b: "sessions (cleanupIdleSessions (40 * second) (server_run (\<lambda>t. Some 7) s4 tr)) ''c'' = None" .
  show ?thesis
    unfolding run6 run7 using a b by simp
qed

subsection \<open>TCP pool\<close>

lemma idle_upd_same: "idle (p\<lparr>conns := (conns p)(b \<mapsto> cs)\<rparr>) b = cs"
  by (simp add: idle_def)

lemma idle_upd_other: "b' \<noteq> b \<Longrightarrow> idle (p\<lparr>conns := (conns p)(b \<mapsto> cs)\<rparr>) b' = idle p b'"
  by (simp add: idle_def)

lemma idle_counters_upd: "idle (p\<lparr>counters := f\<rparr>) b = idle p b"
  by (simp add: idle_def)

lemma unat_succ_uint32: "unat ((c::uint32) + 1) = (unat c + 1) mod 2 ^ 32"
  by (simp add: unat_word_ariths)

text \<open>\<^verbatim>\<open>Get\<close> on a logical target that has backends and a counter.\<close>

lemma Get_selected:
  assumes "backends p logical = Some bs" and "bs \<noteq> []" and "counters p logical = Some c"
    and "backend = bs ! (((unat c + 1) mod 2 ^ 32) mod length bs)"
    and "p1 = p\<lparr>counters := (counters p)(logical \<mapsto> c + 1)\<rparr>"
  shows "Get dial logical p =
    (if idle p backend \<noteq> []
     then (Inr (last (idle p backend)),
           p1\<lparr>conns := (conns p1)(backend \<mapsto> butlast (idle p backend))\<rparr>)
     else (case dial backend of
             None \<Rightarrow> (Inl (DialFailed backend), p1)
           | Some k \<Rightarrow> (Inr k, p1)))"
proof -
  have be: "bs ! (unat (c + 1) mod length bs) = backend"
    by (simp only: assms(4) unat_succ_uint32)
  show ?thesis
    unfolding assms(5) using assms(1,2,3)
    by (simp add: Get_def Let_def idle_counters_upd be last_conv_nth butlast_conv_take
        split: option.splits)
qed

text \<open>
  C4, as stated: \<^verbatim>\<open>Get\<close> uses the counter's old value \<open>c\<close>, so with two backends and the
  counter at 0 it would pick index \<open>0 mod 2 = 0\<close>, backend \<^verbatim>\<open>a:1\<close>, and dial it (connection
  1). The code picks \<^verbatim>\<open>b:1\<close> (connection 2): the claim as stated fails on this input.
\<close>

theorem Get_old_counter_counterexample:
  "backends pool2 ''svc'' = Some [''a:1'', ''b:1''] \<and> counters pool2 ''svc'' = Some 0
   \<and> idle pool2 ''a:1'' = [] \<and> idle pool2 ''b:1'' = []
   \<and> dial2 ([''a:1'', ''b:1''] ! (unat (0::uint32) mod length [''a:1'', ''b:1''])) = Some 1
   \<and> fst (Get dial2 ''svc'' pool2) = Inr 2
   \<and> fst (Get dial2 ''svc'' pool2)
       \<noteq> (case dial2 ([''a:1'', ''b:1''] ! (unat (0::uint32) mod length [''a:1'', ''b:1''])) of
            None \<Rightarrow> Inl (DialFailed ''a:1'') | Some k \<Rightarrow> Inr k)"
  by (simp add: pool2_def dial2_def Get_def AddTargets_def NewTCPPool_def idle_def Let_def)

text \<open>
  C4, amended: for a logical target with a non-empty backend list \<open>bs\<close> and counter \<open>c\<close>,
  \<^verbatim>\<open>Get\<close> stores \<open>c + 1\<close> (wrapping at \<open>2^32\<close>) and selects the backend at index
  \<open>((c + 1) mod 2^32) mod length bs\<close>, the counter's new value: it pops the top of that
  backend's idle stack when there is one, dials that backend otherwise, and touches no
  other stack.
\<close>

theorem Get_round_robin_new_counter:
  assumes "backends p logical = Some bs" and "bs \<noteq> []" and "counters p logical = Some c"
  shows "counters (snd (Get dial logical p)) logical = Some (c + 1)
    \<and> unat (c + 1) = (unat c + 1) mod 2 ^ 32
    \<and> (let backend = bs ! (((unat c + 1) mod 2 ^ 32) mod length bs) in
         (if idle p backend = []
          then fst (Get dial logical p)
                 = (case dial backend of None \<Rightarrow> Inl (DialFailed backend) | Some k \<Rightarrow> Inr k)
               \<and> idle (snd (Get dial logical p)) backend = []
          else fst (Get dial logical p) = Inr (last (idle p backend))
               \<and> idle (snd (Get dial logical p)) backend = butlast (idle p backend))
         \<and> (\<forall>b. b \<noteq> backend \<longrightarrow> idle (snd (Get dial logical p)) b = idle p b))"
proof -
  define backend where "backend = bs ! (((unat c + 1) mod 2 ^ 32) mod length bs)"
  define p1 where "p1 = p\<lparr>counters := (counters p)(logical \<mapsto> c + 1)\<rparr>"
  have ip1: "idle p1 b = idle p b" for b
    by (simp add: p1_def idle_def)
  have G: "Get dial logical p =
      (if idle p backend \<noteq> []
       then (Inr (last (idle p backend)),
             p1\<lparr>conns := (conns p1)(backend \<mapsto> butlast (idle p backend))\<rparr>)
       else (case dial backend of
               None \<Rightarrow> (Inl (DialFailed backend), p1)
             | Some k \<Rightarrow> (Inr k, p1)))"
    by (rule Get_selected [OF assms backend_def p1_def])
  have cnt: "counters (snd (Get dial logical p)) logical = Some (c + 1)"
    by (simp add: G p1_def split: option.splits)
  have sel: "if idle p backend = []
          then fst (Get dial logical p)
                 = (case dial backend of None \<Rightarrow> Inl (DialFailed backend) | Some k \<Rightarrow> Inr k)
               \<and> idle (snd (Get dial logical p)) backend = []
          else fst (Get dial logical p) = Inr (last (idle p backend))
               \<and> idle (snd (Get dial logical p)) backend = butlast (idle p backend)"
    by (simp add: G ip1 idle_upd_same split: option.splits)
  have oth: "idle (snd (Get dial logical p)) b = idle p b" if "b \<noteq> backend" for b
    using that by (simp add: G ip1 idle_upd_other split: option.splits)
  have "unat (c + 1) = (unat c + 1) mod 2 ^ 32"
    by (rule unat_succ_uint32)
  with cnt sel oth show ?thesis
    unfolding Let_def backend_def [symmetric] by blast
qed

theorem Get_round_robin_new_counter_witness:
  "backends pool2 ''svc'' = Some [''a:1'', ''b:1''] \<and> [''a:1'', ''b:1''] \<noteq> []
   \<and> counters pool2 ''svc'' = Some 0
   \<and> counters (snd (Get dial2 ''svc'' pool2)) ''svc'' = Some 1
   \<and> fst (Get dial2 ''svc'' pool2) = Inr 2"
proof -
  have b: "backends pool2 ''svc'' = Some [''a:1'', ''b:1'']"
    by (simp add: pool2_def AddTargets_def)
  have n: "[''a:1'', ''b:1''] \<noteq> ([]::string list)"
    by simp
  have c: "counters pool2 ''svc'' = Some 0"
    by (simp add: pool2_def AddTargets_def)
  have i: "idle pool2 ''b:1'' = []"
    by (simp add: pool2_def AddTargets_def NewTCPPool_def idle_def)
  show ?thesis
    using b n c i Get_round_robin_new_counter [OF b n c, of dial2]
    by (simp add: Let_def dial2_def)
qed

text \<open>
  C5. \<^verbatim>\<open>Put\<close> appends the connection to the backend's idle stack if and only if the stack
  holds fewer than \<^verbatim>\<open>maxSize\<close> (\<^verbatim>\<open>tcp_pool_size\<close>) connections; otherwise it closes the
  connection and leaves the pool as it was. No other backend's stack changes. Consequently,
  when \<^verbatim>\<open>Get\<close> has returned a connection, the \<^verbatim>\<open>Put\<close> that follows leaves exactly one more
  idle connection at the backend than it found there if and only if the stack it found held
  fewer than \<^verbatim>\<open>maxSize\<close> entries.
\<close>

theorem Put_iff_room:
  "(if int (length (idle p b)) < maxSize p
    then Put b k p = (p\<lparr>conns := (conns p)(b \<mapsto> idle p b @ [k])\<rparr>, Pooled)
         \<and> idle (fst (Put b k p)) b = idle p b @ [k]
    else Put b k p = (p, Closed k))
   \<and> (snd (Put b k p) = Pooled \<longleftrightarrow> int (length (idle p b)) < maxSize p)
   \<and> (\<forall>b'. b' \<noteq> b \<longrightarrow> idle (fst (Put b k p)) b' = idle p b')
   \<and> (\<forall>dial logical p0. Get dial logical p0 = (Inr k, p) \<longrightarrow>
        (length (idle (fst (Put b k p)) b) = length (idle p b) + 1
           \<longleftrightarrow> int (length (idle p b)) < maxSize p))"
  by (simp add: Put_def idle_upd_same idle_upd_other)

theorem Put_iff_room_witness:
  "Get dial2 ''svc'' pool2 = (Inr 2, snd (Get dial2 ''svc'' pool2))
   \<and> int (length (idle (snd (Get dial2 ''svc'' pool2)) ''b:1'')) < maxSize (snd (Get dial2 ''svc'' pool2))
   \<and> idle (fst (Put ''b:1'' 2 (snd (Get dial2 ''svc'' pool2)))) ''b:1'' = [2]
   \<and> idle (fst (Put ''b:1'' 2 (snd (Get dial2 ''svc'' pool2)))) ''a:1'' = []
   \<and> length (idle (fst (Put ''b:1'' 2 (snd (Get dial2 ''svc'' pool2)))) ''b:1'')
       = length (idle (snd (Get dial2 ''svc'' pool2)) ''b:1'') + 1"
proof -
  define p where "p = snd (Get dial2 ''svc'' pool2)"
  have g: "Get dial2 ''svc'' pool2 = (Inr 2, p)"
    by (simp add: p_def pool2_def dial2_def Get_def AddTargets_def NewTCPPool_def idle_def Let_def)
  have ib: "idle p ''b:1'' = []" and ia: "idle p ''a:1'' = []" and m: "maxSize p = 2"
    by (simp_all add: p_def pool2_def dial2_def Get_def AddTargets_def NewTCPPool_def idle_def Let_def)
  have "idle (fst (Put ''b:1'' 2 p)) ''b:1'' = [2]
        \<and> idle (fst (Put ''b:1'' 2 p)) ''a:1'' = []
        \<and> length (idle (fst (Put ''b:1'' 2 p)) ''b:1'') = length (idle p ''b:1'') + 1"
    using Put_iff_room [of p "''b:1''" 2] g ib ia m by (auto simp add: idle_upd_same idle_upd_other)
  with g ib m show ?thesis
    unfolding p_def [symmetric] by simp
qed

text \<open>
  The same pair seen from before the \<^verbatim>\<open>Get\<close>. When \<^verbatim>\<open>Get\<close> dials, the \<^verbatim>\<open>Put\<close> that follows
  adds the new connection to the empty stack if \<^verbatim>\<open>maxSize\<close> is positive; when \<^verbatim>\<open>Get\<close> pops a
  connection, the \<^verbatim>\<open>Put\<close> that follows puts it back and the stack is as before the \<^verbatim>\<open>Get\<close>.
\<close>

lemma Put_after_Get_dial:
  assumes "backends p logical = Some bs" and "bs \<noteq> []" and "counters p logical = Some c"
    and "backend = bs ! (((unat c + 1) mod 2 ^ 32) mod length bs)"
    and "idle p backend = []" and "dial backend = Some k"
  shows "fst (Get dial logical p) = Inr k
    \<and> idle (fst (Put backend k (snd (Get dial logical p)))) backend
        = (if 0 < maxSize p then [k] else [])"
proof -
  define p1 where "p1 = p\<lparr>counters := (counters p)(logical \<mapsto> c + 1)\<rparr>"
  have G: "Get dial logical p = (Inr k, p1)"
    using Get_selected [OF assms(1,2,3,4) p1_def, of dial] assms(5,6) by simp
  have "idle p1 backend = []" and "maxSize p1 = maxSize p"
    using assms(5) by (simp_all add: p1_def idle_counters_upd)
  then show ?thesis
    by (simp add: G Put_def idle_upd_same)
qed

lemma Put_after_Get_pop:
  assumes "backends p logical = Some bs" and "bs \<noteq> []" and "counters p logical = Some c"
    and "backend = bs ! (((unat c + 1) mod 2 ^ 32) mod length bs)"
    and "idle p backend \<noteq> []" and "int (length (idle p backend)) \<le> maxSize p"
  shows "fst (Get dial logical p) = Inr (last (idle p backend))
    \<and> idle (fst (Put backend (last (idle p backend)) (snd (Get dial logical p)))) backend
        = idle p backend"
proof -
  define p1 where "p1 = p\<lparr>counters := (counters p)(logical \<mapsto> c + 1)\<rparr>"
  have G: "Get dial logical p
      = (Inr (last (idle p backend)), p1\<lparr>conns := (conns p1)(backend \<mapsto> butlast (idle p backend))\<rparr>)"
    using Get_selected [OF assms(1,2,3,4) p1_def, of dial] assms(5) by simp
  have lt: "int (length (butlast (idle p backend))) < maxSize p1"
    using assms(5,6) by (cases "idle p backend" rule: rev_cases) (simp_all add: p1_def)
  have "idle (fst (Put backend (last (idle p backend))
          (p1\<lparr>conns := (conns p1)(backend \<mapsto> butlast (idle p backend))\<rparr>))) backend
      = butlast (idle p backend) @ [last (idle p backend)]"
    using lt by (simp add: Put_def idle_upd_same)
  then show ?thesis
    using assms(5) by (simp add: G)
qed

subsection \<open>Metrics registry\<close>

text \<open>
  C10. For a stream id that is not registered, \<^verbatim>\<open>AddBytes\<close> and \<^verbatim>\<open>AddError\<close> return the
  registry as it was: no entry is created and no counter of any registered stream changes.
\<close>

theorem metrics_unregistered_unchanged:
  assumes "mstreams m ident = None"
  shows "AddBytes now ident sent recv m = m \<and> AddError ident m = m"
  using assms by (simp add: AddBytes_def AddError_def)

theorem metrics_unregistered_unchanged_witness:
  "mstreams (RegisterStream 5 ''a'' NewMetricsManager) ''b'' = None
   \<and> AddBytes 9 ''b'' 3 4 (RegisterStream 5 ''a'' NewMetricsManager)
       = RegisterStream 5 ''a'' NewMetricsManager
   \<and> AddError ''b'' (RegisterStream 5 ''a'' NewMetricsManager)
       = RegisterStream 5 ''a'' NewMetricsManager"
proof -
  have h: "mstreams (RegisterStream 5 ''a'' NewMetricsManager) ''b'' = None"
    by (simp add: RegisterStream_def NewMetricsManager_def)
  show ?thesis
    using h metrics_unregistered_unchanged [OF h, of 9 3 4] by simp
qed

end
